theory Spec2Isabelle
  imports Complex_Main
begin

section \<open>JavaScript values used by the frontend helpers\<close>

text \<open>
  The frontend is TypeScript. The two helpers verified here, \<open>apiRequest\<close>
  (\<open>lib/api/client.ts\<close>) and \<open>formatNumber\<close> (\<open>lib/utils.ts\<close>), depend on
  JavaScript's truthiness, on \<open>||\<close>, on property reads with and without
  optional chaining and on \<open>new Error(v)\<close>. A value is what JSON can carry,
  or \<open>undefined\<close>; a number is a double, which is a rational (JSON has no
  \<open>NaN\<close> and no infinity, and negative zero is falsy as zero is).
\<close>

datatype js_value =
    JUndefined
  | JNull
  | JBool bool
  | JNum rat
  | JStr string
  | JArray "js_value list"
  | JObject "(string \<times> js_value) list"

fun truthy :: "js_value \<Rightarrow> bool" where
  "truthy JUndefined = False"
| "truthy JNull = False"
| "truthy (JBool b) = b"
| "truthy (JNum n) = (n \<noteq> 0)"
| "truthy (JStr s) = (s \<noteq> [])"
| "truthy (JArray xs) = True"
| "truthy (JObject kvs) = True"

text \<open>\<open>a || b\<close>: the left operand when it is truthy, the right one otherwise.\<close>

definition js_or :: "js_value \<Rightarrow> js_value \<Rightarrow> js_value" where
  "js_or a b = (if truthy a then a else b)"

text \<open>
  \<open>v?.k\<close>: \<open>undefined\<close> when \<open>v\<close> is \<open>undefined\<close> or \<open>null\<close>; the
  property otherwise. Only an object has the properties read in the source
  (\<open>response\<close>, \<open>status\<close>, \<open>data\<close>, \<open>detail\<close>, \<open>message\<close>,
  \<open>isAxiosError\<close>: no string, number, boolean or array has one of them); a
  key written twice in a JSON object keeps its last value.
\<close>

fun opt_prop :: "js_value \<Rightarrow> string \<Rightarrow> js_value" where
  "opt_prop (JObject kvs) k = (case map_of (rev kvs) k of Some v \<Rightarrow> v | None \<Rightarrow> JUndefined)"
| "opt_prop v k = JUndefined"

subsection \<open>Decimal digits\<close>

definition digit_char :: "nat \<Rightarrow> char" where
  "digit_char d = char_of (48 + d)"

fun string_of_nat :: "nat \<Rightarrow> string" where
  "string_of_nat n =
     (if n < 10 then [digit_char n] else string_of_nat (n div 10) @ [digit_char (n mod 10)])"

declare string_of_nat.simps [simp del]

fun join :: "string \<Rightarrow> string list \<Rightarrow> string" where
  "join sep [] = []"
| "join sep [x] = x"
| "join sep (x # y # ys) = x @ sep @ join sep (y # ys)"

section \<open>\<open>apiRequest\<close> (\<open>lib/api/client.ts\<close>)\<close>

text \<open>What a successful call of the client resolves with.\<close>

record axios_response =
  status :: nat
  data :: js_value

text \<open>
  What a promise can be rejected with and a \<open>throw\<close> can carry: any value
  (an axios error is an object whose properties \<open>isAxiosError\<close>, \<open>message\<close>
  and \<open>response\<close> the code reads), an \<open>Error\<close> with its message, which has
  none of those properties but the message, or the \<open>TypeError\<close> the engine
  raises.
\<close>

datatype thrown =
    Thrown js_value
  | NewError string
  | TypeError

text \<open>The promise of the transport: resolved with a response, or rejected.\<close>

datatype outcome = Resolved axios_response | Rejected thrown

text \<open>
  The part of the browser the client touches: the stored token and the
  location of the window. The request interceptor only reads the token into a
  header of the request.
\<close>

record browser =
  auth_token :: "string option"
  href :: string

text \<open>
  \<open>error.response\<close>, read without optional chaining: on \<open>undefined\<close> and on
  \<open>null\<close> the read itself raises a \<open>TypeError\<close>.
\<close>

definition error_response :: "thrown \<Rightarrow> thrown + js_value" where
  "error_response t =
     (case t of
        Thrown JUndefined \<Rightarrow> Inl TypeError
      | Thrown JNull \<Rightarrow> Inl TypeError
      | Thrown v \<Rightarrow> Inr (opt_prop v ''response'')
      | _ \<Rightarrow> Inr JUndefined)"

text \<open>
  The response interceptor of \<open>createApiClient\<close>: a response passes through.
  On a rejection, \<open>error.response?.status === 401\<close> removes the token and
  redirects to \<open>/login\<close>, and the error is rejected again, unchanged; when
  the test itself raises, the promise is rejected with what it raised.
\<close>

definition response_interceptor :: "browser \<Rightarrow> outcome \<Rightarrow> browser \<times> outcome" where
  "response_interceptor b out =
     (case out of
        Resolved r \<Rightarrow> (b, Resolved r)
      | Rejected t \<Rightarrow>
          (case error_response t of
             Inl raised \<Rightarrow> (b, Rejected raised)
           | Inr resp \<Rightarrow>
               if opt_prop resp ''status'' = JNum 401
               then (b\<lparr>auth_token := None, href := ''/login''\<rparr>, Rejected t)
               else (b, Rejected t)))"

text \<open>
  \<open>axios.isAxiosError(error)\<close>: the payload is an object and its
  \<open>isAxiosError\<close> is \<open>true\<close>.
\<close>

definition isAxiosError :: "thrown \<Rightarrow> bool" where
  "isAxiosError t =
     (case t of
        Thrown (JObject kvs) \<Rightarrow> opt_prop (JObject kvs) ''isAxiosError'' = JBool True
      | _ \<Rightarrow> False)"

text \<open>\<open>error.response?.data?.detail\<close>, on an error that is an object.\<close>

definition error_detail :: "js_value \<Rightarrow> js_value" where
  "error_detail v = opt_prop (opt_prop (opt_prop v ''response'') ''data'') ''detail''"

text \<open>
  \<open>error.response?.data?.detail || error.message || "API request failed"\<close>
\<close>

definition error_text :: "js_value \<Rightarrow> js_value" where
  "error_text v =
     js_or (js_or (error_detail v) (opt_prop v ''message'')) (JStr ''API request failed'')"

text \<open>
  \<open>throw new Error(v)\<close>, for a \<open>v\<close> that is not \<open>undefined\<close>: the message is
  \<open>ToString(v)\<close>. A string is its own conversion. The conversion of any other
  value belongs to the language, not to this repository, and is the parameter
  \<open>to_string\<close>: it gives the string, or what the conversion throws (an object
  whose \<open>toString\<close> and \<open>valueOf\<close> are not callable has no string).
\<close>

definition new_error :: "(js_value \<Rightarrow> thrown + string) \<Rightarrow> js_value \<Rightarrow> thrown" where
  "new_error to_string v =
     (case v of
        JStr s \<Rightarrow> NewError s
      | _ \<Rightarrow> (case to_string v of Inl raised \<Rightarrow> raised | Inr s \<Rightarrow> NewError s))"

text \<open>
  \<open>apiRequest\<close>: the awaited call of the client is the transport's outcome
  after the response interceptor. \<open>Inr\<close> is the returned \<open>response.data\<close>,
  \<open>Inl\<close> what is thrown.
\<close>

definition apiRequest ::
  "(js_value \<Rightarrow> thrown + string) \<Rightarrow> browser \<Rightarrow> outcome \<Rightarrow> browser \<times> (thrown + js_value)" where
  "apiRequest to_string b transport =
     (case response_interceptor b transport of
        (b', Resolved r) \<Rightarrow> (b', Inr (data r))
      | (b', Rejected t) \<Rightarrow>
          if isAxiosError t
          then (case t of
                  Thrown v \<Rightarrow> (b', Inl (new_error to_string (error_text v)))
                | _ \<Rightarrow> (b', Inl t))
          else (b', Inl t))"

section \<open>\<open>formatNumber\<close> (\<open>lib/utils.ts\<close>)\<close>

text \<open>
  A JavaScript number is a double: \<open>NaN\<close>, an infinity, or a finite value,
  which is a rational number. \<open>Number.prototype.toFixed\<close> is defined by
  ECMAScript on that exact value, so the model takes any rational (negative zero
  behaves as zero in everything below). The parameter of \<open>formatNumber\<close> is
  typed \<open>number\<close>, and the function still tests it against \<open>undefined\<close> and
  \<open>null\<close>.
\<close>

datatype js_number = Finite rat | NaN | PosInfinity | NegInfinity

datatype js_arg = Undefined | Null | Number js_number

datatype js_error = RangeError

definition is_digit :: "char \<Rightarrow> bool" where
  "is_digit c = (48 \<le> (of_char c :: nat) \<and> (of_char c :: nat) \<le> 57)"

text \<open>The class \<open>\w\<close> of a regular expression: letters, digits and the underscore.\<close>

definition is_word :: "char \<Rightarrow> bool" where
  "is_word c =
     (is_digit c \<or> (65 \<le> (of_char c :: nat) \<and> (of_char c :: nat) \<le> 90) \<or>
      (97 \<le> (of_char c :: nat) \<and> (of_char c :: nat) \<le> 122) \<or> c = CHR ''_'')"

text \<open>
  \<open>x.toFixed(f)\<close>, step by step as ECMAScript gives it: a \<open>RangeError\<close> when
  \<open>f\<close> is above 100; the name of a value that is not finite; the sign, then for
  a magnitude of at least \<open>10^21\<close> the general conversion of the number to a
  string (exponent notation, taken as the parameter \<open>to_string\<close>); otherwise
  the integer \<open>n\<close> closest to the magnitude times \<open>10^f\<close>, the larger one of
  two, written in decimal, padded on the left with zeros to \<open>f + 1\<close> digits when
  it has at most \<open>f\<close>, and cut by a point before its last \<open>f\<close> digits.
\<close>

definition toFixed :: "(rat \<Rightarrow> string) \<Rightarrow> js_number \<Rightarrow> nat \<Rightarrow> js_error + string" where
  "toFixed to_string x f =
     (if f > 100 then Inl RangeError
      else case x of
        NaN \<Rightarrow> Inr ''NaN''
      | PosInfinity \<Rightarrow> Inr ''Infinity''
      | NegInfinity \<Rightarrow> Inr ''-Infinity''
      | Finite q \<Rightarrow>
          (let s = (if q < 0 then ''-'' else '''');
               a = \<bar>q\<bar>
           in if a \<ge> 10 ^ 21 then Inr (s @ to_string a)
              else
                (let n = nat \<lfloor>a * 10 ^ f + 1 / 2\<rfloor>;
                     m = string_of_nat n
                 in if f \<noteq> 0
                    then
                      (let k = length m;
                           m' = (if k \<le> f then replicate (f + 1 - k) CHR ''0'' @ m else m);
                           k' = (if k \<le> f then f + 1 else k)
                       in Inr (s @ take (k' - f) m' @ ''.'' @ drop (k' - f) m'))
                    else Inr (s @ m))))"

text \<open>\<open>s.split(c)\<close> for a separator of one character: never an empty list.\<close>

fun split_on :: "char \<Rightarrow> string \<Rightarrow> string list" where
  "split_on c [] = [[]]"
| "split_on c (x # xs) =
     (if x = c then [] # split_on c xs
      else (case split_on c xs of [] \<Rightarrow> [[x]] | p # ps \<Rightarrow> (x # p) # ps))"

text \<open>
  The regular expression \<open>/\B(?=(\d{3})+(?!\d))/g\<close> matches the empty string at
  every position that is not a word boundary and is followed by one or more
  groups of three digits and then by no digit. \<open>digit_groups\<close> is the
  lookahead \<open>(?=(\d{3})+(?!\d))\<close> on the rest of the string; \<open>not_word_boundary\<close>
  is \<open>\B\<close> between the character before and the character after (\<open>None\<close> at
  either end of the string); \<open>insert_commas\<close> is the global replacement of
  every match by a comma, the character before the position carried along.
\<close>

fun digit_groups :: "string \<Rightarrow> bool" where
  "digit_groups (a # b # c # rest) =
     (is_digit a \<and> is_digit b \<and> is_digit c \<and>
      (digit_groups rest \<or> (case rest of [] \<Rightarrow> True | d # _ \<Rightarrow> \<not> is_digit d)))"
| "digit_groups _ = False"

definition not_word_boundary :: "char option \<Rightarrow> char option \<Rightarrow> bool" where
  "not_word_boundary prev nxt =
     ((case prev of None \<Rightarrow> False | Some c \<Rightarrow> is_word c) =
      (case nxt of None \<Rightarrow> False | Some c \<Rightarrow> is_word c))"

fun insert_commas :: "char option \<Rightarrow> string \<Rightarrow> string" where
  "insert_commas prev [] = []"
| "insert_commas prev (c # cs) =
     (if not_word_boundary prev (Some c) \<and> digit_groups (c # cs) then '','' else [])
     @ c # insert_commas (Some c) cs"

text \<open>
  \<open>formatNumber(number, decimalPlaces, addCommas)\<close>. \<open>parts[0]\<close> is truthy when
  it is not the empty string.
\<close>

definition formatNumber :: "(rat \<Rightarrow> string) \<Rightarrow> js_arg \<Rightarrow> nat \<Rightarrow> bool \<Rightarrow> js_error + string" where
  "formatNumber to_string number decimalPlaces addCommas =
     (case number of
        Undefined \<Rightarrow> Inr []
      | Null \<Rightarrow> Inr []
      | Number x \<Rightarrow>
          (case toFixed to_string x decimalPlaces of
             Inl e \<Rightarrow> Inl e
           | Inr fixed \<Rightarrow>
               (if addCommas
                then (case split_on CHR ''.'' fixed of
                        [] \<Rightarrow> Inr fixed
                      | p # ps \<Rightarrow>
                          if p \<noteq> [] then Inr (join ''.'' (insert_commas None p # ps))
                          else Inr fixed)
                else Inr fixed)))"

subsection \<open>What fixed-point notation with grouped thousands is\<close>

text \<open>
  The claim about \<open>formatNumber\<close> speaks of the decimal representation of \<open>x\<close>
  rounded to \<open>d\<close> fractional digits, with the integer part in groups of three.
  These definitions say what that is, without following the code: the
  magnitude scaled by \<open>10^d\<close> and rounded to the nearest integer (half up), the
  decimal digits of its quotient by \<open>10^d\<close>, its last \<open>d\<close> digits, and a
  grouping that cuts three digits at a time from the right.
\<close>

fun frac_digits :: "nat \<Rightarrow> nat \<Rightarrow> string" where
  "frac_digits 0 n = []"
| "frac_digits (Suc f) n = frac_digits f (n div 10) @ [digit_char (n mod 10)]"

function group3 :: "string \<Rightarrow> string" where
  "group3 ds =
     (if length ds \<le> 3 then ds
      else group3 (take (length ds - 3) ds) @ '','' @ drop (length ds - 3) ds)"
  by pat_completeness auto
termination
  by (relation "measure length") auto

declare group3.simps [simp del]

definition scaled_round :: "rat \<Rightarrow> nat \<Rightarrow> nat" where
  "scaled_round q d = nat \<lfloor>\<bar>q\<bar> * 10 ^ d + 1 / 2\<rfloor>"

definition sign_text :: "rat \<Rightarrow> string" where
  "sign_text q = (if q < 0 then ''-'' else [])"

definition fraction_text :: "rat \<Rightarrow> nat \<Rightarrow> string" where
  "fraction_text q d = (if d = 0 then [] else ''.'' @ frac_digits d (scaled_round q d))"

definition fixed_point :: "rat \<Rightarrow> nat \<Rightarrow> string" where
  "fixed_point q d =
     sign_text q @ string_of_nat (scaled_round q d div 10 ^ d) @ fraction_text q d"

definition fixed_point_grouped :: "rat \<Rightarrow> nat \<Rightarrow> string" where
  "fixed_point_grouped q d =
     sign_text q @ group3 (string_of_nat (scaled_round q d div 10 ^ d)) @ fraction_text q d"

section \<open>The parsing engine: money normalization\<close>

text \<open>
  The load-text parser runs in the backend (\<open>app/core/parser\<close>), whose
  source is not among the files of the repository verified here; the frontend
  only posts the text to \<open>/loads/parse\<close>. The definitions of this section
  follow the written specification of the engine.
\<close>













section \<open>Properties of \<open>apiRequest\<close>\<close>

lemma error_response_nullish:
  "error_response t = Inl e \<longleftrightarrow> (t = Thrown JUndefined \<or> t = Thrown JNull) \<and> e = TypeError"
proof (cases t)
  case (Thrown v)
  then show ?thesis by (cases v) (auto simp: error_response_def)
qed (auto simp: error_response_def)

lemma response_interceptor_rejected:
  "t \<noteq> Thrown JUndefined \<Longrightarrow> t \<noteq> Thrown JNull \<Longrightarrow>
   snd (response_interceptor b (Rejected t)) = Rejected t"
proof -
  assume "t \<noteq> Thrown JUndefined" and "t \<noteq> Thrown JNull"
  then obtain resp where "error_response t = Inr resp"
    using error_response_nullish [of t] by (cases "error_response t") auto
  then show ?thesis by (simp add: response_interceptor_def)
qed



lemma isAxiosError_object: "isAxiosError (Thrown v) \<Longrightarrow> v \<noteq> JUndefined \<and> v \<noteq> JNull"
  by (cases v) (simp_all add: isAxiosError_def)

lemma apiRequest_rejected:
  assumes "t \<noteq> Thrown JUndefined" and "t \<noteq> Thrown JNull"
  shows "snd (apiRequest to_string b (Rejected t)) =
           (if isAxiosError t
            then (case t of Thrown v \<Rightarrow> Inl (new_error to_string (error_text v)) | _ \<Rightarrow> Inl t)
            else Inl t)"
proof -
  obtain b' out where io: "response_interceptor b (Rejected t) = (b', out)"
    by (cases "response_interceptor b (Rejected t)")
  with response_interceptor_rejected [OF assms, of b] have "out = Rejected t" by simp
  with io show ?thesis by (simp add: apiRequest_def split: thrown.splits)
qed

lemma apiRequest_axios:
  assumes "isAxiosError (Thrown v)"
  shows "snd (apiRequest to_string b (Rejected (Thrown v))) =
           Inl (new_error to_string (error_text v))"
  using assms apiRequest_rejected [of "Thrown v" to_string b] isAxiosError_object [OF assms]
  by simp

lemma error_text_cases:
  "truthy (error_detail v) \<Longrightarrow> error_text v = error_detail v"
  "\<not> truthy (error_detail v) \<Longrightarrow> truthy (opt_prop v ''message'') \<Longrightarrow>
     error_text v = opt_prop v ''message''"
  "\<not> truthy (error_detail v) \<Longrightarrow> \<not> truthy (opt_prop v ''message'') \<Longrightarrow>
     error_text v = JStr ''API request failed''"
  by (simp_all add: error_text_def js_or_def)




text \<open>
  A detail that is a value and not a string goes through the language's
  conversion, whatever it gives: the message for the list of validation errors
  of a 422 answer is the conversion of that list, and a conversion that throws
  (a detail object with a \<open>toString\<close> key that is not a function) makes the
  wrapper throw what it threw.
\<close>

lemma apiRequest_converted_detail:
  assumes "isAxiosError (Thrown v)" and "truthy (error_detail v)"
    and "\<forall>s. error_detail v \<noteq> JStr s"
  shows "snd (apiRequest to_string b (Rejected (Thrown v))) =
           Inl (case to_string (error_detail v) of Inl raised \<Rightarrow> raised | Inr s \<Rightarrow> NewError s)"
  using apiRequest_axios [OF assms(1), of to_string b] error_text_cases(1) [OF assms(2)] assms(3)
  by (cases "error_detail v") (simp_all add: new_error_def)

text \<open>
  The interceptor's effect on the browser: a rejection whose response has the
  status 401 removes the token and sends the window to \<open>/login\<close>; any other
  outcome leaves both as they were.
\<close>

lemma apiRequest_unauthorized:
  "error_response t = Inr resp \<Longrightarrow> opt_prop resp ''status'' = JNum 401 \<Longrightarrow>
   fst (apiRequest to_string b (Rejected t)) = b\<lparr>auth_token := None, href := ''/login''\<rparr>"
  by (simp add: apiRequest_def response_interceptor_def split: thrown.splits)

lemma apiRequest_browser_kept:
  "error_response t = Inr resp \<Longrightarrow> opt_prop resp ''status'' \<noteq> JNum 401 \<Longrightarrow>
   fst (apiRequest to_string b (Rejected t)) = b"
  "error_response t = Inl e \<Longrightarrow> fst (apiRequest to_string b (Rejected t)) = b"
  "fst (apiRequest to_string b (Resolved r)) = b"
  by (simp_all add: apiRequest_def response_interceptor_def split: thrown.splits)

section \<open>Properties of \<open>formatNumber\<close>\<close>

lemma of_char_digit_char: "d < 10 \<Longrightarrow> (of_char (digit_char d) :: nat) = 48 + d"
  by (simp add: digit_char_def)

lemma is_digit_digit_char: "d < 10 \<Longrightarrow> is_digit (digit_char d)"
  by (simp add: is_digit_def of_char_digit_char)

lemma is_digit_not_dot: "is_digit c \<Longrightarrow> c \<noteq> CHR ''.''"
  by (auto simp: is_digit_def)

lemma is_digit_is_word: "is_digit c \<Longrightarrow> is_word c"
  by (simp add: is_word_def)

lemma string_of_nat_digits: "list_all is_digit (string_of_nat n)"
proof (induction n rule: string_of_nat.induct)
  case (1 n)
  show ?case
  proof (cases "n < 10")
    case True
    then show ?thesis by (simp add: string_of_nat.simps [of n] is_digit_digit_char)
  next
    case False
    with 1 show ?thesis
      by (simp add: string_of_nat.simps [of n] is_digit_digit_char)
  qed
qed

lemma string_of_nat_not_Nil: "string_of_nat n \<noteq> []"
  by (simp add: string_of_nat.simps [of n])

lemma frac_digits_length: "length (frac_digits f n) = f"
  by (induction f arbitrary: n) simp_all

lemma frac_digits_digits: "list_all is_digit (frac_digits f n)"
  by (induction f arbitrary: n) (simp_all add: is_digit_digit_char)

lemma digit_char_0: "digit_char 0 = CHR ''0''"
  by code_simp

lemma frac_digits_zero: "frac_digits f 0 = replicate f (CHR ''0'')"
  by (induction f) (simp_all add: digit_char_0 replicate_append_same)

lemma string_of_nat_split:
  "10 ^ f \<le> n \<Longrightarrow> string_of_nat n = string_of_nat (n div 10 ^ f) @ frac_digits f n"
proof (induction f arbitrary: n)
  case 0
  then show ?case by simp
next
  case (Suc f)
  have "(1::nat) \<le> 10 ^ f" by simp
  then have "(10::nat) \<le> 10 ^ Suc f" by simp
  with Suc.prems have big: "\<not> n < 10" by linarith
  have "10 ^ f \<le> n div 10" using Suc.prems by (simp add: less_eq_div_iff_mult_less_eq)
  from Suc.IH [OF this]
  have "string_of_nat (n div 10) = string_of_nat (n div 10 div 10 ^ f) @ frac_digits f (n div 10)" .
  moreover have "n div 10 div 10 ^ f = n div 10 ^ Suc f" by (simp add: div_mult2_eq)
  ultimately show ?case using big by (simp add: string_of_nat.simps [of n])
qed

lemma string_of_nat_pad:
  "n < 10 ^ Suc f \<Longrightarrow>
   length (string_of_nat n) \<le> Suc f \<and>
   replicate (Suc f - length (string_of_nat n)) (CHR ''0'') @ string_of_nat n = frac_digits (Suc f) n"
proof (induction f arbitrary: n)
  case 0
  then show ?case by (simp add: string_of_nat.simps [of n])
next
  case (Suc f)
  show ?case
  proof (cases "n < 10")
    case True
    then show ?thesis
      by (simp add: string_of_nat.simps [of n] frac_digits_zero replicate_append_same digit_char_def)
  next
    case False
    have "n div 10 < 10 ^ Suc f" using Suc.prems by (simp add: less_mult_imp_div_less)
    from Suc.IH [OF this] False show ?thesis
      by (simp add: string_of_nat.simps [of n] Suc_diff_le)
  qed
qed

lemma string_of_nat_length_gt: "10 ^ f \<le> n \<Longrightarrow> f < length (string_of_nat n)"
proof -
  assume "10 ^ f \<le> n"
  then have "length (string_of_nat n) = length (string_of_nat (n div 10 ^ f)) + f"
    using string_of_nat_split [of f n] by (simp add: frac_digits_length)
  moreover have "0 < length (string_of_nat (n div 10 ^ f))"
    using string_of_nat_not_Nil by simp
  ultimately show ?thesis by linarith
qed


lemma toFixed_fixed_point:
  assumes f: "f \<le> 100" and q: "\<bar>q\<bar> < 10 ^ 21"
  shows "toFixed to_string (Finite q) f = Inr (fixed_point q f)"
proof (cases f)
  case 0
  with q show ?thesis
    by (simp add: toFixed_def fixed_point_def fraction_text_def scaled_round_def sign_text_def)
next
  case (Suc g)
  define n where "n = scaled_round q f"
  define m where "m = string_of_nat n"
  have step: "toFixed to_string (Finite q) f =
      Inr (sign_text q @
        take ((if length m \<le> f then f + 1 else length m) - f)
          (if length m \<le> f then replicate (f + 1 - length m) CHR ''0'' @ m else m) @ ''.'' @
        drop ((if length m \<le> f then f + 1 else length m) - f)
          (if length m \<le> f then replicate (f + 1 - length m) CHR ''0'' @ m else m))"
    using f q Suc
    by (simp add: toFixed_def Let_def sign_text_def n_def m_def scaled_round_def)
  have goal: "fixed_point q f =
      sign_text q @ string_of_nat (n div 10 ^ f) @ ''.'' @ frac_digits f n"
    using Suc by (simp add: fixed_point_def fraction_text_def n_def)
  show ?thesis
  proof (cases "n < 10 ^ f")
    case True
    with Suc string_of_nat_pad [of n g]
    have k: "length m \<le> f"
      and pad: "replicate (f - length m) (CHR ''0'') @ m = frac_digits f n"
      by (simp_all add: m_def)
    have "replicate (f + 1 - length m) CHR ''0'' @ m = CHR ''0'' # frac_digits f n"
      using k pad by (simp add: Suc_diff_le)
    moreover have "string_of_nat (n div 10 ^ f) = ''0''"
      using True by (simp add: string_of_nat.simps [of 0] digit_char_0)
    ultimately show ?thesis using k by (simp add: step goal)
  next
    case False
    then have ge: "10 ^ f \<le> n" by simp
    have k: "\<not> length m \<le> f"
      using string_of_nat_length_gt [OF ge] by (simp add: m_def)
    have m: "m = string_of_nat (n div 10 ^ f) @ frac_digits f n"
      using string_of_nat_split [OF ge] by (simp add: m_def)
    have len: "length m - f = length (string_of_nat (n div 10 ^ f))"
      by (subst m) (simp add: frac_digits_length)
    have "take (length m - f) m = string_of_nat (n div 10 ^ f)"
      unfolding len by (subst m) simp
    moreover have "drop (length m - f) m = frac_digits f n"
      unfolding len by (subst m) simp
    ultimately show ?thesis using k by (simp add: step goal)
  qed
qed

lemma group3_short: "length ds \<le> 3 \<Longrightarrow> group3 ds = ds"
  by (simp add: group3.simps [of ds])

lemma group3_Cons:
  "group3 (c # cs) =
     c # (if cs \<noteq> [] \<and> length cs mod 3 = 0 then '','' else []) @ group3 cs"
proof (induction "length cs" arbitrary: c cs rule: less_induct)
  case less
  show ?case
  proof (cases "length cs < 3")
    case True
    then have "cs \<noteq> [] \<Longrightarrow> length cs mod 3 \<noteq> 0" by auto
    with True show ?thesis by (auto simp: group3_short)
  next
    case False
    define n where "n = length cs"
    have n3: "3 \<le> n" using False by (simp add: n_def)
    have n2: "n - 2 = Suc (n - 3)" using n3 by simp
    have unfold: "group3 (c # cs) = group3 (c # take (n - 3) cs) @ '','' @ drop (n - 3) cs"
      using n3 by (subst group3.simps) (simp add: n_def [symmetric] n2)
    have "length (take (n - 3) cs) < length cs" using n3 by (simp add: n_def)
    from less [OF this]
    have ih: "group3 (c # take (n - 3) cs) =
        c # (if take (n - 3) cs \<noteq> [] \<and> length (take (n - 3) cs) mod 3 = 0 then '','' else [])
          @ group3 (take (n - 3) cs)" .
    show ?thesis
    proof (cases "n = 3")
      case True
      then have "cs \<noteq> []" by (auto simp: n_def)
      with True show ?thesis using unfold ih by (simp add: n_def [symmetric] group3_short)
    next
      case False
      with n3 have gt: "3 < n" by simp
      then have cs: "group3 cs = group3 (take (n - 3) cs) @ '','' @ drop (n - 3) cs"
        by (subst group3.simps) (simp add: n_def)
      have "(n - 3) mod 3 = n mod 3" using n3 by (metis le_add_diff_inverse2 mod_add_self2)
      moreover have "cs \<noteq> []" using gt by (auto simp: n_def)
      moreover have "take (n - 3) cs \<noteq> []" using gt by (auto simp: n_def)
      ultimately show ?thesis using unfold ih cs gt by (simp add: n_def [symmetric] min_def)
    qed
  qed
qed

lemma digit_groups_digits:
  "list_all is_digit cs \<Longrightarrow> digit_groups cs = (cs \<noteq> [] \<and> length cs mod 3 = 0)"
proof (induction cs rule: digit_groups.induct)
  case (1 a b c rest)
  have "length (a # b # c # rest) = length rest + 3" by simp
  then have len: "length (a # b # c # rest) mod 3 = length rest mod 3"
    by (simp only: mod_add_self2)
  from 1 have "digit_groups rest = (rest \<noteq> [] \<and> length rest mod 3 = 0)" by simp
  moreover from 1 have "(case rest of [] \<Rightarrow> True | d # _ \<Rightarrow> \<not> is_digit d) = (rest = [])"
    by (cases rest) simp_all
  ultimately have "digit_groups (a # b # c # rest) = (length rest mod 3 = 0)"
    using 1 by auto
  with len show ?case by simp
qed simp_all

lemma insert_commas_after_digit:
  "list_all is_digit cs \<Longrightarrow> is_digit p \<Longrightarrow>
   insert_commas (Some p) cs =
     (if cs \<noteq> [] \<and> length cs mod 3 = 0 then '','' else []) @ group3 cs"
proof (induction cs arbitrary: p)
  case Nil
  then show ?case by (simp add: group3_short)
next
  case (Cons c cs)
  then have "insert_commas (Some c) cs =
      (if cs \<noteq> [] \<and> length cs mod 3 = 0 then '','' else []) @ group3 cs"
    by simp
  moreover have "not_word_boundary (Some p) (Some c)"
    using Cons.prems by (simp add: not_word_boundary_def is_digit_is_word)
  moreover have "digit_groups (c # cs) = (length (c # cs) mod 3 = 0)"
    using digit_groups_digits [of "c # cs"] Cons.prems by simp
  ultimately show ?case by (simp add: group3_Cons [of c cs])
qed

lemma insert_commas_digits:
  assumes "list_all is_digit ds"
  shows "insert_commas None ds = group3 ds"
proof (cases ds)
  case Nil
  then show ?thesis by (simp add: group3_short)
next
  case (Cons c cs)
  with assms have "is_digit c" "list_all is_digit cs" by simp_all
  then show ?thesis
    using insert_commas_after_digit [of cs c] Cons
    by (simp add: not_word_boundary_def is_digit_is_word group3_Cons [of c cs])
qed

lemma minus_not_word: "\<not> is_word CHR ''-''" "\<not> is_digit CHR ''-''"
  by (simp_all add: is_word_def is_digit_def)

lemma digit_groups_head: "digit_groups (a # xs) \<Longrightarrow> is_digit a"
  by (erule digit_groups.elims) auto

lemma digit_groups_minus: "\<not> digit_groups (CHR ''-'' # xs)"
  using digit_groups_head [of "CHR ''-''" xs] minus_not_word by blast

lemma insert_commas_minus_digits:
  assumes "list_all is_digit ds"
  shows "insert_commas None (CHR ''-'' # ds) = CHR ''-'' # group3 ds"
proof (cases ds)
  case Nil
  then show ?thesis by (simp add: group3_short)
next
  case (Cons c cs)
  with assms have "is_digit c" "list_all is_digit cs" by simp_all
  then show ?thesis
    using insert_commas_after_digit [of cs c] Cons
    by (simp add: not_word_boundary_def is_digit_is_word minus_not_word digit_groups_minus
        group3_Cons [of c cs] del: digit_groups.simps)
qed

lemma insert_commas_sign:
  "list_all is_digit ds \<Longrightarrow> insert_commas None (sign_text q @ ds) = sign_text q @ group3 ds"
  by (cases "q < 0")
    (simp_all add: sign_text_def insert_commas_minus_digits insert_commas_digits
      del: insert_commas.simps)

lemma split_on_none: "c \<notin> set xs \<Longrightarrow> split_on c xs = [xs]"
  by (induction xs) auto

lemma split_on_first: "c \<notin> set xs \<Longrightarrow> split_on c (xs @ c # ys) = xs # split_on c ys"
  by (induction xs) auto

lemma digits_no_dot: "list_all is_digit ds \<Longrightarrow> CHR ''.'' \<notin> set ds"
  by (auto simp: list_all_iff dest: is_digit_not_dot)

lemma sign_no_dot: "CHR ''.'' \<notin> set (sign_text q)"
  by (simp add: sign_text_def)

lemma split_fixed_point:
  "split_on CHR ''.'' (fixed_point q d) =
     (sign_text q @ string_of_nat (scaled_round q d div 10 ^ d)) #
     (if d = 0 then [] else [frac_digits d (scaled_round q d)])"
proof -
  let ?i = "sign_text q @ string_of_nat (scaled_round q d div 10 ^ d)"
  have i: "CHR ''.'' \<notin> set ?i"
    using digits_no_dot [OF string_of_nat_digits] sign_no_dot by simp
  show ?thesis
  proof (cases "d = 0")
    case True
    then show ?thesis using split_on_none [OF i] by (simp add: fixed_point_def fraction_text_def)
  next
    case False
    have "fixed_point q d = ?i @ CHR ''.'' # frac_digits d (scaled_round q d)"
      using False by (simp add: fixed_point_def fraction_text_def)
    then show ?thesis
      using False split_on_first [OF i, of "frac_digits d (scaled_round q d)"]
        split_on_none [OF digits_no_dot [OF frac_digits_digits], of d "scaled_round q d"]
      by simp
  qed
qed

text \<open>The notation at one number, computed.\<close>

lemma floor_rat_numeral: "\<lfloor>numeral a / numeral b :: rat\<rfloor> = numeral a div numeral b"
  using floor_divide_of_int_eq [of "numeral a" "numeral b", where ?'a = rat] by simp

lemma digit_char_values:
  "digit_char 0 = CHR ''0''" "digit_char (Suc 0) = CHR ''1''" "digit_char 2 = CHR ''2''"
  "digit_char 3 = CHR ''3''" "digit_char 4 = CHR ''4''" "digit_char 5 = CHR ''5''"
  "digit_char 6 = CHR ''6''" "digit_char 7 = CHR ''7''" "digit_char 8 = CHR ''8''"
  "digit_char 9 = CHR ''9''"
  by code_simp+

lemma frac_digits_2: "frac_digits 2 n = [digit_char (n div 10 mod 10), digit_char (n mod 10)]"
  by (simp add: numeral_2_eq_2)

lemma scaled_round_example: "scaled_round (- (1234567891 / 1000)) 2 = 123456789"
  by (simp add: scaled_round_def floor_rat_numeral)

lemma string_of_nat_example: "string_of_nat 1234567 = ''1234567''"
  by (simp add: string_of_nat.simps digit_char_values)

lemma group3_example: "group3 ''1234567'' = ''1,234,567''"
  by (simp add: group3.simps)

lemma fixed_point_grouped_example:
  "fixed_point_grouped (- (1234567891 / 1000)) 2 = ''-1,234,567.89''"
  by (simp add: fixed_point_grouped_def scaled_round_example string_of_nat_example
      group3_example sign_text_def fraction_text_def frac_digits_2 digit_char_values)

lemma fixed_point_example: "fixed_point (- (1234567891 / 1000)) 2 = ''-1234567.89''"
  by (simp add: fixed_point_def scaled_round_example string_of_nat_example
      sign_text_def fraction_text_def frac_digits_2 digit_char_values)

text \<open>
  C9, as the code has it. \<open>formatNumber\<close> returns the empty string for
  \<open>undefined\<close> and for \<open>null\<close>. For a finite number of magnitude below
  \<open>10^21\<close> and at most 100 decimal places it returns fixed-point notation: a
  minus sign when the number is negative, the magnitude rounded half up to
  \<open>d\<close> fractional digits, and with \<open>addCommas\<close> the integer part in groups
  of three digits separated by commas.
\<close>

theorem formatNumber_fixed_point:
  "formatNumber to_string Undefined d c = Inr [] \<and>
   formatNumber to_string Null d c = Inr [] \<and>
   (d \<le> 100 \<and> \<bar>q\<bar> < 10 ^ 21 \<longrightarrow>
      formatNumber to_string (Number (Finite q)) d True = Inr (fixed_point_grouped q d) \<and>
      formatNumber to_string (Number (Finite q)) d False = Inr (fixed_point q d))"
proof -
  have "formatNumber to_string (Number (Finite q)) d True = Inr (fixed_point_grouped q d) \<and>
        formatNumber to_string (Number (Finite q)) d False = Inr (fixed_point q d)"
    if "d \<le> 100" and "\<bar>q\<bar> < 10 ^ 21"
  proof -
    have fixed: "toFixed to_string (Finite q) d = Inr (fixed_point q d)"
      using that by (rule toFixed_fixed_point)
    have "formatNumber to_string (Number (Finite q)) d True = Inr (fixed_point_grouped q d)"
      by (simp add: formatNumber_def fixed split_fixed_point string_of_nat_not_Nil
          insert_commas_sign [OF string_of_nat_digits] fixed_point_grouped_def fraction_text_def)
    moreover have "formatNumber to_string (Number (Finite q)) d False = Inr (fixed_point q d)"
      by (simp add: formatNumber_def fixed)
    ultimately show ?thesis by simp
  qed
  then show ?thesis by (simp add: formatNumber_def)
qed

theorem formatNumber_fixed_point_witness:
  "(2::nat) \<le> 100 \<and> \<bar>- (1234567891 / 1000) :: rat\<bar> < 10 ^ 21 \<and>
   formatNumber (\<lambda>a. []) (Number (Finite (- (1234567891 / 1000)))) 2 True
     = Inr ''-1,234,567.89'' \<and>
   formatNumber (\<lambda>a. []) (Number (Finite (- (1234567891 / 1000)))) 2 False
     = Inr ''-1234567.89'' \<and>
   formatNumber (\<lambda>a. []) Undefined 2 True = Inr []"
  using formatNumber_fixed_point [of "\<lambda>a. []" 2 True "- (1234567891 / 1000)"]
  by (simp add: fixed_point_grouped_example fixed_point_example)

text \<open>
  C9 as the claim words it (for every number and every natural number of
  decimal places) fails: \<open>toFixed\<close> accepts at most 100 decimal places, and
  \<open>formatNumber(1, 101)\<close> throws a \<open>RangeError\<close> instead of returning a string.
\<close>

theorem formatNumber_range_counterexample:
  "formatNumber (\<lambda>a. []) (Number (Finite 1)) 101 True = Inl RangeError"
  by (simp add: formatNumber_def toFixed_def)

text \<open>
  Nor is every number written in fixed-point notation: \<open>NaN\<close> gives its name,
  and from \<open>10^21\<close> on \<open>toFixed\<close> hands the number to the general conversion.
\<close>

lemma formatNumber_NaN: "d \<le> 100 \<Longrightarrow> formatNumber to_string (Number NaN) d c = Inr ''NaN''"
  by (simp add: formatNumber_def toFixed_def is_digit_def)

lemma formatNumber_large:
  "formatNumber (\<lambda>a. ''1e+21'') (Number (Finite (10 ^ 21))) 2 True = Inr ''1e+21''"
  by (simp add: formatNumber_def toFixed_def not_word_boundary_def is_word_def is_digit_def)

section \<open>Properties of the money normalizer\<close>























end
